theory Spec2Isabelle
  imports Main "HOL-Library.Word"
begin

unbundle bit_operations_syntax

section \<open>JavaScript values used by the Button component\<close>

text \<open>
  An optional boolean property (\<^verbatim>\<open>disabled?: boolean\<close>) is \<open>None\<close> when it is
  \<^verbatim>\<open>undefined\<close>. A property read that may yield \<^verbatim>\<open>undefined\<close> (\<^verbatim>\<open>classes.root\<close>) is a
  \<open>string option\<close>. Numbers are modelled on their integer values.
\<close>

type_synonym jsbool = "bool option"

definition truthy :: "jsbool \<Rightarrow> bool" where
  "truthy b = (b = Some True)"

text \<open>Truthiness of a string-valued property read: \<^verbatim>\<open>undefined\<close> and \<^verbatim>\<open>''\<close> are falsy.\<close>

definition truthy_str :: "string option \<Rightarrow> bool" where
  "truthy_str v = (case v of None \<Rightarrow> False | Some s \<Rightarrow> s \<noteq> [])"

text \<open>\<^verbatim>\<open>a || b\<close> on optional booleans: the left operand when it is truthy, else the right.\<close>

definition js_or :: "jsbool \<Rightarrow> jsbool \<Rightarrow> jsbool" where
  "js_or a b = (if truthy a then a else b)"

text \<open>\<^verbatim>\<open>a || b\<close> on string-valued property reads.\<close>

definition js_or_str :: "string option \<Rightarrow> string option \<Rightarrow> string option" where
  "js_or_str a b = (if truthy_str a then a else b)"

text \<open>
  \<^verbatim>\<open>a & b\<close>: both operands are converted to 32-bit integers, the result is read back
  as a signed 32-bit integer.
\<close>

definition js_bitand :: "int \<Rightarrow> int \<Rightarrow> int" where
  "js_bitand a b = sint ((word_of_int a :: 32 word) AND word_of_int b)"

text \<open>A computed property key \<^verbatim>\<open>[v]\<close>: \<^verbatim>\<open>undefined\<close> becomes the key \<^verbatim>\<open>"undefined"\<close>.\<close>

definition prop_key :: "string option \<Rightarrow> string" where
  "prop_key v = (case v of None \<Rightarrow> ''undefined'' | Some s \<Rightarrow> s)"

text \<open>
  A value read from an object by a name that is only known at run time is a string or,
  when the name is that of a property that every object inherits, a function or an
  object. \<open>JSObject\<close> carries the string that the value converts to.
\<close>

datatype jsval = JSString string | JSObject string

definition js_str :: "string option \<Rightarrow> jsval option" where
  "js_str v = map_option JSString v"

text \<open>
  The properties that a plain object inherits from \<^verbatim>\<open>Object.prototype\<close>: functions, and
  for \<^verbatim>\<open>__proto__\<close> the prototype object itself. A native function converts to a string
  of the form \<^verbatim>\<open>function name() { [native code] }\<close>, the prototype to
  \<^verbatim>\<open>[object Object]\<close>.
\<close>

definition inherited_names :: "string list" where
  "inherited_names =
     [''constructor'', ''__defineGetter__'', ''__defineSetter__'', ''hasOwnProperty'',
      ''__lookupGetter__'', ''__lookupSetter__'', ''isPrototypeOf'',
      ''propertyIsEnumerable'', ''toString'', ''valueOf'', ''__proto__'',
      ''toLocaleString'']"

definition Object_prototype :: "string \<Rightarrow> jsval option" where
  "Object_prototype name =
     (if name \<in> set inherited_names
      then Some (JSObject
        (if name = ''__proto__'' then ''[object Object]''
         else ''function '' @ (if name = ''constructor'' then ''Object'' else name) @
              ''() { [native code] }''))
      else None)"

text \<open>
  \<^verbatim>\<open>obj[name]\<close> on a plain object whose own properties are the strings of \<open>obj\<close>: the
  own property when there is one, else the inherited one, else \<^verbatim>\<open>undefined\<close>.
\<close>

definition js_get :: "(string \<Rightarrow> string option) \<Rightarrow> string \<Rightarrow> jsval option" where
  "js_get obj name =
     (case obj name of Some s \<Rightarrow> Some (JSString s) | None \<Rightarrow> Object_prototype name)"

text \<open>Truthiness, \<^verbatim>\<open>a || b\<close> and the computed property key for such values.\<close>

definition truthy_val :: "jsval option \<Rightarrow> bool" where
  "truthy_val v =
     (case v of None \<Rightarrow> False | Some (JSString s) \<Rightarrow> s \<noteq> [] | Some (JSObject _) \<Rightarrow> True)"

definition js_or_val :: "jsval option \<Rightarrow> jsval option \<Rightarrow> jsval option" where
  "js_or_val a b = (if truthy_val a then a else b)"

definition val_key :: "jsval option \<Rightarrow> string" where
  "val_key v =
     (case v of None \<Rightarrow> ''undefined'' | Some (JSString s) \<Rightarrow> s | Some (JSObject s) \<Rightarrow> s)"

text \<open>The keys that inherited properties give when they are used as computed keys.\<close>

definition inherited_keys :: "string list" where
  "inherited_keys = map (\<lambda>name. val_key (Object_prototype name)) inherited_names"

datatype error = TypeError

section \<open>Corner mask and border radius\<close>

record corners_t =
  TOP_LEFT :: int
  TOP_RIGHT :: int
  BOTTOM_RIGHT :: int
  BOTTOM_LEFT :: int

text \<open>
  Modelled from the spec: the module \<^verbatim>\<open>./Corners\<close> is not part of the sources. The corner
  mask has four bits, one per corner, in the order top-left, top-right, bottom-right,
  bottom-left.
\<close>

definition Corners :: corners_t where
  "Corners = \<lparr>TOP_LEFT = 1, TOP_RIGHT = 2, BOTTOM_RIGHT = 4, BOTTOM_LEFT = 8\<rparr>"

text \<open>One interpolation \<^verbatim>\<open>${corners & c ? 0 : radius}\<close> of the template literal.\<close>

definition corner_radius :: "int \<Rightarrow> int \<Rightarrow> string \<Rightarrow> string" where
  "corner_radius corners c radius = (if js_bitand corners c \<noteq> 0 then ''0'' else radius)"

text \<open>
  \<^verbatim>\<open>const { corners = 0 } = this.props; const radius = '2px';\<close> and the
  \<^verbatim>\<open>borderRadius\<close> entry of \<^verbatim>\<open>rootProps.style\<close>.
\<close>

definition borderRadius :: "corners_t \<Rightarrow> int option \<Rightarrow> string" where
  "borderRadius C cs =
     (let corners = (case cs of None \<Rightarrow> 0 | Some c \<Rightarrow> c);
          radius = ''2px''
      in corner_radius corners (TOP_LEFT C) radius @ '' '' @
         corner_radius corners (TOP_RIGHT C) radius @ '' '' @
         corner_radius corners (BOTTOM_RIGHT C) radius @ '' '' @
         corner_radius corners (BOTTOM_LEFT C) radius)"

section \<open>Class names\<close>

text \<open>
  An object literal is the list of its own properties in insertion order; a later entry
  with a key that is already present replaces the value and keeps the position.
  (Keys that are array indices would be enumerated first; class names are not.)
\<close>

fun obj_put :: "string \<Rightarrow> 'v \<Rightarrow> (string \<times> 'v) list \<Rightarrow> (string \<times> 'v) list" where
  "obj_put k v [] = [(k, v)]"
| "obj_put k v ((k', v') # rest) =
     (if k = k' then (k, v) # rest else (k', v') # obj_put k v rest)"

definition object_literal :: "(string \<times> 'v) list \<Rightarrow> (string \<times> 'v) list" where
  "object_literal entries = foldl (\<lambda>obj (k, v). obj_put k v obj) [] entries"

text \<open>
  \<^verbatim>\<open>classNames(obj)\<close> of the \<^verbatim>\<open>classnames\<close> package: the keys whose values are truthy,
  in enumeration order. The result is kept as the list of tokens that the package joins
  with single spaces.
\<close>

definition classNames :: "(string \<times> jsbool) list \<Rightarrow> string list" where
  "classNames obj = map fst (filter (\<lambda>(k, v). truthy v) obj)"

section \<open>Configuration\<close>

datatype width = WidthNumber int | WidthString string

text \<open>
  \<^verbatim>\<open>ButtonProps\<close>. \<open>'h\<close> stands for handler references, \<open>'c\<close> for React nodes. The
  fields \<open>use_prop\<close>, \<open>size_prop\<close> and \<open>type_prop\<close> hold what the caller passed
  (\<open>None\<close> for \<^verbatim>\<open>undefined\<close>); \<open>noPadding\<close> and \<open>noRightPadding\<close> are
  \<^verbatim>\<open>_noPadding\<close> and \<^verbatim>\<open>_noRightPadding\<close>. \<open>use\<close> and \<open>size\<close> are strings, as they
  are at run time, so that values outside the enumerations can be given.
\<close>

record ('h, 'c) props =
  noPadding :: jsbool
  noRightPadding :: jsbool
  active :: jsbool
  align :: "string option"
  arrow :: jsbool
  autoFocus :: jsbool
  borderless :: jsbool
  checked :: jsbool
  children :: 'c
  corners :: "int option"
  disabled :: jsbool
  disableFocus :: jsbool
  error :: jsbool
  focused :: jsbool
  icon :: "string option"
  loading :: jsbool
  narrow :: jsbool
  onClick :: "'h option"
  onKeyDown :: "'h option"
  onMouseEnter :: "'h option"
  onMouseLeave :: "'h option"
  onMouseOver :: "'h option"
  size_prop :: "string option"
  type_prop :: "string option"
  use_prop :: "string option"
  visuallyFocused :: jsbool
  warning :: jsbool
  width :: "width option"

text \<open>
  \<^verbatim>\<open>static defaultProps = { use: 'default', size: 'small', type: 'button' }\<close>: React
  substitutes the default for a property that is \<^verbatim>\<open>undefined\<close>; these are the values
  \<^verbatim>\<open>this.props.use\<close>, \<^verbatim>\<open>this.props.size\<close> and \<^verbatim>\<open>this.props.type\<close> read.
\<close>

definition props_use :: "('h, 'c) props \<Rightarrow> string" where
  "props_use p = (case use_prop p of None \<Rightarrow> ''default'' | Some u \<Rightarrow> u)"

definition props_size :: "('h, 'c) props \<Rightarrow> string" where
  "props_size p = (case size_prop p of None \<Rightarrow> ''small'' | Some s \<Rightarrow> s)"

definition props_type :: "('h, 'c) props \<Rightarrow> string" where
  "props_type p = (case type_prop p of None \<Rightarrow> ''button'' | Some t \<Rightarrow> t)"

section \<open>Render\<close>

text \<open>
  The style table \<^verbatim>\<open>classes\<close> that \<^verbatim>\<open>styled.element\<close> passes to the render callback
  is a plain object; a \<open>class_table\<close> holds its own properties, a token name mapped to a
  class name. The tables themselves (\<^verbatim>\<open>Button.less\<close>, \<^verbatim>\<open>Button.styles\<close>) and
  \<^verbatim>\<open>styled.element\<close> are not part of the sources, so the table is a parameter. A read
  with a fixed token name (\<^verbatim>\<open>classes.root\<close>) is the own property, \<^verbatim>\<open>undefined\<close> when the
  table does not have it: none of the token names that the component reads is the name
  of an inherited property. The reads by a name from the configuration,
  \<^verbatim>\<open>classes[this.props.use]\<close> and \<^verbatim>\<open>SIZE_CLASSES[this.props.size]\<close>, go through
  \<open>js_get\<close> and \<open>Object_prototype\<close>.
\<close>

type_synonym class_table = "string \<Rightarrow> string option"

text \<open>
  What the render callback reads from its module: \<^verbatim>\<open>cssStyles\<close>, which is assigned only
  when \<^verbatim>\<open>process.env.EXPERIMENTAL_CSS_IN_JS\<close> is unset and is \<^verbatim>\<open>undefined\<close> otherwise,
  the feature flag \<^verbatim>\<open>Upgrades.isSizeMedium16pxEnabled()\<close>, and the \<^verbatim>\<open>Corners\<close> constants.
\<close>

record env =
  cssStyles :: "class_table option"
  isSizeMedium16pxEnabled :: bool
  env_Corners :: corners_t

record style =
  style_borderRadius :: string
  style_textAlign :: "string option"
  style_width :: "width option"

datatype own_handler = HandleFocus | HandleBlur

record 'h rootProps =
  root_type :: string
  root_className :: "string list"
  root_style :: style
  root_disabled :: jsbool
  root_onClick :: "'h option"
  root_onFocus :: own_handler
  root_onBlur :: own_handler
  root_onKeyDown :: "'h option"
  root_onMouseEnter :: "'h option"
  root_onMouseLeave :: "'h option"
  root_onMouseOver :: "'h option"
  root_tabIndex :: int

record wrapProps =
  wrap_className :: "string option"
  wrap_style_width :: "width option"

text \<open>The child elements: a \<^verbatim>\<open>div\<close> with a class name, the icon \<^verbatim>\<open>span\<close>, the arrow \<^verbatim>\<open>div\<close>.\<close>

datatype div_element = Div "string option"

datatype icon_element = IconSpan "string option" string

datatype arrow_element = ArrowDiv "string list"

text \<open>
  The element tree that render returns: \<^verbatim>\<open>span\<close> (wrapProps) around \<^verbatim>\<open>button\<close>
  (rootProps) around loading, arrow, the caption \<^verbatim>\<open>div\<close> (icon and children) and error.
\<close>

record ('h, 'c) rendered =
  out_wrapProps :: wrapProps
  out_rootProps :: "'h rootProps"
  out_loading :: "div_element option"
  out_arrow :: "arrow_element option"
  out_caption :: "string option"
  out_icon :: "icon_element option"
  out_children :: 'c
  out_error :: "div_element option"

text \<open>
  \<^verbatim>\<open>SIZE_CLASSES[size]\<close>: the object literal has the own properties \<^verbatim>\<open>small\<close>,
  \<^verbatim>\<open>medium\<close> and \<^verbatim>\<open>large\<close>; any other name reads what the object inherits.
\<close>

definition SIZE_CLASSES :: "env \<Rightarrow> class_table \<Rightarrow> string \<Rightarrow> jsval option" where
  "SIZE_CLASSES e classes sz =
     (if sz = ''small'' then js_str (classes ''sizeSmall'')
      else if sz = ''medium'' then
        (if isSizeMedium16pxEnabled e then js_str (classes ''sizeMedium'')
         else js_str (classes ''DEPRECATED_sizeMedium''))
      else if sz = ''large'' then js_str (classes ''sizeLarge'')
      else Object_prototype sz)"

text \<open>The object literal given to \<^verbatim>\<open>classNames\<close> for \<^verbatim>\<open>rootProps.className\<close>.\<close>

definition root_class_entries ::
  "env \<Rightarrow> class_table \<Rightarrow> class_table \<Rightarrow> ('h, 'c) props \<Rightarrow> bool \<Rightarrow> (string \<times> jsbool) list" where
  "root_class_entries e classes css p fbt =
     [(prop_key (classes ''root''), Some True),
      (val_key (js_or_val (js_get classes (props_use p)) (js_str (classes ''default''))),
       Some True),
      (prop_key (classes ''active''), active p),
      (prop_key (classes ''checked''), checked p),
      (prop_key (classes ''disabled''), js_or (disabled p) (loading p)),
      (prop_key (classes ''narrow''), narrow p),
      (prop_key (classes ''noPadding''), noPadding p),
      (prop_key (classes ''noRightPadding''), noRightPadding p),
      (prop_key (classes ''buttonWithIcon''), Some (truthy_str (icon p))),
      (val_key (SIZE_CLASSES e classes (props_size p)), Some True),
      (prop_key (classes ''focus''), js_or (Some fbt) (visuallyFocused p)),
      (prop_key (css ''borderless''), borderless p)]"

text \<open>The object literal given to \<^verbatim>\<open>classNames\<close> in the link override.\<close>

definition link_class_entries ::
  "env \<Rightarrow> class_table \<Rightarrow> ('h, 'c) props \<Rightarrow> bool \<Rightarrow> (string \<times> jsbool) list" where
  "link_class_entries e classes p fbt =
     [(prop_key (classes ''root''), Some True),
      (prop_key (classes ''link''), Some True),
      (prop_key (classes ''disabled''), disabled p),
      (prop_key (classes ''buttonWithIcon''), Some (truthy_str (icon p))),
      (val_key (SIZE_CLASSES e classes (props_size p)), Some True),
      (prop_key (classes ''focus''), js_or (Some fbt) (visuallyFocused p))]"

text \<open>The object literal given to \<^verbatim>\<open>classNames\<close> for the arrow.\<close>

definition arrow_class_entries ::
  "class_table \<Rightarrow> ('h, 'c) props \<Rightarrow> (string \<times> jsbool) list" where
  "arrow_class_entries classes p =
     [(prop_key (js_or_str (classes ''arrow'') (Some [])), Some True),
      (prop_key (js_or_str (classes ''arrow_loading'') (Some [])), loading p),
      (prop_key (js_or_str (classes ''arrow_error'') (Some [])), error p),
      (prop_key (js_or_str (classes ''arrow_warning'') (Some [])), warning p)]"

text \<open>
  The composition before the link override: \<^verbatim>\<open>rootProps\<close>, \<^verbatim>\<open>wrapProps\<close>, \<^verbatim>\<open>error\<close>,
  \<^verbatim>\<open>loading\<close>, \<^verbatim>\<open>icon\<close> and \<^verbatim>\<open>arrow\<close>. Reading \<^verbatim>\<open>cssStyles.borderless\<close> while
  \<^verbatim>\<open>cssStyles\<close> is \<^verbatim>\<open>undefined\<close> throws a TypeError. \<open>fbt\<close> is \<^verbatim>\<open>this.state.focusedByTab\<close>.
\<close>

definition render_base ::
  "env \<Rightarrow> class_table \<Rightarrow> ('h, 'c) props \<Rightarrow> bool \<Rightarrow> error + ('h, 'c) rendered" where
  "render_base e classes p fbt =
     (case cssStyles e of
        None \<Rightarrow> Inl TypeError
      | Some css \<Rightarrow>
          Inr \<lparr>out_wrapProps =
                 \<lparr>wrap_className =
                    (if truthy (arrow p) then js_or_str (classes ''wrap_arrow'') (Some [])
                     else classes ''wrap''),
                  wrap_style_width = None\<rparr>,
               out_rootProps =
                 \<lparr>root_type = props_type p,
                  root_className = classNames (object_literal (root_class_entries e classes css p fbt)),
                  root_style =
                    \<lparr>style_borderRadius = borderRadius (env_Corners e) (corners p),
                     style_textAlign = align p,
                     style_width = width p\<rparr>,
                  root_disabled = js_or (disabled p) (loading p),
                  root_onClick = onClick p,
                  root_onFocus = HandleFocus,
                  root_onBlur = HandleBlur,
                  root_onKeyDown = onKeyDown p,
                  root_onMouseEnter = onMouseEnter p,
                  root_onMouseLeave = onMouseLeave p,
                  root_onMouseOver = onMouseOver p,
                  root_tabIndex = (if truthy (disableFocus p) then - 1 else 0)\<rparr>,
               out_loading = (if truthy (loading p) then Some (Div (classes ''loading'')) else None),
               out_arrow =
                 (if truthy (arrow p)
                  then Some (ArrowDiv (classNames (object_literal (arrow_class_entries classes p))))
                  else None),
               out_caption = classes ''caption'',
               out_icon =
                 (case icon p of
                    None \<Rightarrow> None
                  | Some name \<Rightarrow>
                      if name \<noteq> [] then Some (IconSpan (classes ''icon'') name) else None),
               out_children = children p,
               out_error =
                 (if truthy (error p) then Some (Div (classes ''error''))
                  else if truthy (warning p) then Some (Div (classes ''warning''))
                  else None)\<rparr>)"

text \<open>
  \<^verbatim>\<open>if (this.props.use === 'link') { ... }\<close>: the body of the override, applied to the
  composition so far.
\<close>

definition link_override ::
  "env \<Rightarrow> class_table \<Rightarrow> ('h, 'c) props \<Rightarrow> bool \<Rightarrow> ('h, 'c) rendered \<Rightarrow> ('h, 'c) rendered" where
  "link_override e classes p fbt out =
     out\<lparr>out_rootProps :=
           (out_rootProps out)
             \<lparr>root_className := classNames (object_literal (link_class_entries e classes p fbt)),
              root_style := (root_style (out_rootProps out))\<lparr>style_textAlign := None\<rparr>\<rparr>,
         out_wrapProps :=
           (out_wrapProps out)
             \<lparr>wrap_className := classes ''wrap'',
              wrap_style_width := wrap_style_width (out_wrapProps out)\<rparr>,
         out_error := None,
         out_loading := None,
         out_arrow := None\<rparr>"

definition render ::
  "env \<Rightarrow> class_table \<Rightarrow> ('h, 'c) props \<Rightarrow> bool \<Rightarrow> error + ('h, 'c) rendered" where
  "render e classes p fbt =
     (case render_base e classes p fbt of
        Inl err \<Rightarrow> Inl err
      | Inr out \<Rightarrow>
          Inr (if props_use p = ''link'' then link_override e classes p fbt out else out))"

section \<open>Tab-focus detector and focus handling\<close>

definition KEYCODE_TAB :: int where
  "KEYCODE_TAB = 9"

text \<open>The button element behind \<^verbatim>\<open>_node\<close>; \<open>hasFocus\<close> says that it is the active element.\<close>

record HTMLButtonElement =
  hasFocus :: bool

text \<open>
  The state the component works on: the module variables \<^verbatim>\<open>isListening\<close> and
  \<^verbatim>\<open>tabPressed\<close> (both \<^verbatim>\<open>undefined\<close> until assigned), the number of keydown listeners
  attached to \<^verbatim>\<open>window\<close>, \<^verbatim>\<open>this.state.focusedByTab\<close>, \<^verbatim>\<open>this._node\<close>, and the number
  of callbacks of this instance that \<^verbatim>\<open>process.nextTick\<close> holds.
\<close>

record sys =
  isListening :: jsbool
  tabPressed :: jsbool
  keydownListeners :: nat
  focusedByTab :: bool
  node :: "HTMLButtonElement option"
  nextTickQueue :: nat

text \<open>The state when the module is loaded and the instance is constructed.\<close>

definition init_sys :: sys where
  "init_sys =
     \<lparr>isListening = None, tabPressed = None, keydownListeners = 0,
      focusedByTab = False, node = None, nextTickQueue = 0\<rparr>"

definition listenTabPresses :: "sys \<Rightarrow> sys" where
  "listenTabPresses s =
     (if \<not> truthy (isListening s)
      then s\<lparr>keydownListeners := Suc (keydownListeners s), isListening := Some True\<rparr>
      else s)"

text \<open>The listener \<^verbatim>\<open>event => { tabPressed = event.keyCode === KEYCODE_TAB; }\<close>.\<close>

definition keydown_listener :: "int \<Rightarrow> sys \<Rightarrow> sys" where
  "keydown_listener keyCode s = s\<lparr>tabPressed := Some (keyCode = KEYCODE_TAB)\<rparr>"

text \<open>A keydown on \<^verbatim>\<open>window\<close> runs every attached listener.\<close>

definition dispatch_keydown :: "int \<Rightarrow> sys \<Rightarrow> sys" where
  "dispatch_keydown keyCode s = (keydown_listener keyCode ^^ keydownListeners s) s"

text \<open>\<^verbatim>\<open>handleFocus\<close> queues the deferred check with \<^verbatim>\<open>process.nextTick\<close>.\<close>

definition handleFocus :: "('h, 'c) props \<Rightarrow> sys \<Rightarrow> sys" where
  "handleFocus p s =
     (if \<not> truthy (disabled p) \<and> \<not> truthy (disableFocus p)
      then s\<lparr>nextTickQueue := Suc (nextTickQueue s)\<rparr>
      else s)"

text \<open>The callback given to \<^verbatim>\<open>process.nextTick\<close>.\<close>

definition deferred_check :: "sys \<Rightarrow> sys" where
  "deferred_check s =
     (if truthy (tabPressed s) then s\<lparr>focusedByTab := True, tabPressed := Some False\<rparr> else s)"

definition handleBlur :: "sys \<Rightarrow> sys" where
  "handleBlur s = s\<lparr>focusedByTab := False\<rparr>"

text \<open>The ref callback \<^verbatim>\<open>_ref\<close>.\<close>

definition ref_cb :: "HTMLButtonElement option \<Rightarrow> sys \<Rightarrow> sys" where
  "ref_cb n s = s\<lparr>node := n\<rparr>"

text \<open>
  The method calls \<^verbatim>\<open>this._node.focus()\<close> and \<^verbatim>\<open>this._node.blur()\<close>. On \<^verbatim>\<open>null\<close> they
  throw a TypeError. On an element, the platform is modelled as granting the request:
  an element that does not have focus takes it and its focus event runs \<^verbatim>\<open>onFocus\<close>
  (\<^verbatim>\<open>handleFocus\<close>) before the call returns; likewise for blur and \<^verbatim>\<open>onBlur\<close>. A platform
  that refuses focus to a control (a disabled one, say) is outside this model.
\<close>

definition node_focus :: "('h, 'c) props \<Rightarrow> sys \<Rightarrow> error + sys" where
  "node_focus p s =
     (case node s of
        None \<Rightarrow> Inl TypeError
      | Some n \<Rightarrow>
          Inr (if hasFocus n then s else handleFocus p (s\<lparr>node := Some (n\<lparr>hasFocus := True\<rparr>)\<rparr>)))"

definition node_blur :: "sys \<Rightarrow> error + sys" where
  "node_blur s =
     (case node s of
        None \<Rightarrow> Inl TypeError
      | Some n \<Rightarrow>
          Inr (if hasFocus n then handleBlur (s\<lparr>node := Some (n\<lparr>hasFocus := False\<rparr>)\<rparr>) else s))"

definition focus :: "('h, 'c) props \<Rightarrow> sys \<Rightarrow> error + sys" where
  "focus p s = (if node s \<noteq> None then node_focus p s else Inr s)"

definition blur :: "sys \<Rightarrow> error + sys" where
  "blur s = (if node s \<noteq> None then node_blur s else Inr s)"

definition componentDidMount :: "('h, 'c) props \<Rightarrow> sys \<Rightarrow> error + sys" where
  "componentDidMount p s =
     (let s1 = listenTabPresses s
      in if truthy (autoFocus p) then focus p (s1\<lparr>tabPressed := Some True\<rparr>) else Inr s1)"

text \<open>
  Mounting: React creates the button element, hands it to the ref callback and then
  calls \<^verbatim>\<open>componentDidMount\<close>.
\<close>

definition mount :: "('h, 'c) props \<Rightarrow> sys \<Rightarrow> error + sys" where
  "mount p s = componentDidMount p (ref_cb (Some \<lparr>hasFocus = False\<rparr>) s)"

text \<open>Whether the control holds input focus.\<close>

definition holdsFocus :: "sys \<Rightarrow> bool" where
  "holdsFocus s = (case node s of None \<Rightarrow> False | Some n \<Rightarrow> hasFocus n)"

text \<open>
  The events that reach a mounted instance: a keydown on \<^verbatim>\<open>window\<close>, the control's focus
  and blur events (which run \<^verbatim>\<open>handleFocus\<close> and \<^verbatim>\<open>handleBlur\<close>), and the run of one
  queued deferred check.
\<close>

datatype event = KeyDown int | FocusEvent | BlurEvent | NextTick

definition set_hasFocus :: "bool \<Rightarrow> sys \<Rightarrow> sys" where
  "set_hasFocus b s = s\<lparr>node := map_option (\<lambda>n. n\<lparr>hasFocus := b\<rparr>) (node s)\<rparr>"

fun step :: "('h, 'c) props \<Rightarrow> event \<Rightarrow> sys \<Rightarrow> sys" where
  "step p (KeyDown keyCode) s = dispatch_keydown keyCode s"
| "step p FocusEvent s = handleFocus p (set_hasFocus True s)"
| "step p BlurEvent s = handleBlur (set_hasFocus False s)"
| "step p NextTick s =
     (if 0 < nextTickQueue s then deferred_check (s\<lparr>nextTickQueue := nextTickQueue s - 1\<rparr>)
      else s)"

definition run :: "('h, 'c) props \<Rightarrow> event list \<Rightarrow> sys \<Rightarrow> sys" where
  "run p es s = foldl (\<lambda>s' ev. step p ev s') s es"

text \<open>All queued deferred checks have run.\<close>

definition drain :: "('h, 'c) props \<Rightarrow> sys \<Rightarrow> sys" where
  "drain p s = (step p NextTick ^^ nextTickQueue s) s"

section \<open>Conditions on the parameters, and sample values\<close>

text \<open>
  The class names that the root class set is built from: those of the tokens that the
  render callback reads from \<^verbatim>\<open>classes\<close>, the variant tokens of \<^verbatim>\<open>ButtonUse\<close>, and
  \<^verbatim>\<open>cssStyles.borderless\<close>.
\<close>

definition variant_names :: "string list" where
  "variant_names = [''default'', ''primary'', ''success'', ''danger'', ''pay'', ''link'']"

definition variant_classes :: "class_table \<Rightarrow> string list" where
  "variant_classes classes = map (\<lambda>name. prop_key (classes name)) variant_names"

definition other_classes :: "class_table \<Rightarrow> class_table \<Rightarrow> string list" where
  "other_classes classes css =
     map (\<lambda>name. prop_key (classes name))
       [''root'', ''active'', ''checked'', ''disabled'', ''narrow'', ''noPadding'',
        ''noRightPadding'', ''buttonWithIcon'', ''sizeSmall'', ''sizeMedium'',
        ''DEPRECATED_sizeMedium'', ''sizeLarge'', ''focus''] @
     [prop_key (css ''borderless'')]"

text \<open>
  A style table is well formed when these tokens are all defined, with class names that
  are not empty, differ from token to token, and are none of the keys that inherited
  properties give.
\<close>

definition wf_styles :: "class_table \<Rightarrow> class_table \<Rightarrow> bool" where
  "wf_styles classes css =
     (distinct (''undefined'' # [] # variant_classes classes @ other_classes classes css) \<and>
      set (variant_classes classes @ other_classes classes css) \<inter> set inherited_keys = {})"

text \<open>
  The own properties of a table in the manner of CSS modules, and an environment that
  uses it.
\<close>

definition example_classes :: class_table where
  "example_classes name =
     (if name \<in> set [''root'', ''default'', ''primary'', ''success'', ''danger'', ''pay'',
          ''link'', ''active'', ''checked'', ''disabled'', ''narrow'', ''noPadding'',
          ''noRightPadding'', ''buttonWithIcon'', ''sizeSmall'', ''sizeMedium'',
          ''DEPRECATED_sizeMedium'', ''sizeLarge'', ''focus'', ''borderless'', ''wrap'',
          ''wrap_arrow'', ''error'', ''warning'', ''loading'', ''icon'', ''arrow'',
          ''arrow_loading'', ''arrow_error'', ''arrow_warning'', ''caption'']
      then Some (''Button-'' @ name) else None)"

definition example_env :: env where
  "example_env =
     \<lparr>cssStyles = Some example_classes, isSizeMedium16pxEnabled = False,
      env_Corners = Corners\<rparr>"

text \<open>The configuration of a button that is given a caption and nothing else.\<close>

definition default_props :: "(nat, string) props" where
  "default_props =
     \<lparr>noPadding = None, noRightPadding = None, active = None, align = None, arrow = None,
      autoFocus = None, borderless = None, checked = None, children = ''OK'', corners = None,
      disabled = None, disableFocus = None, error = None, focused = None, icon = None,
      loading = None, narrow = None, onClick = None, onKeyDown = None, onMouseEnter = None,
      onMouseLeave = None, onMouseOver = None, size_prop = None, type_prop = None,
      use_prop = None, visuallyFocused = None, warning = None, width = None\<rparr>"

text \<open>The state that mounting \<open>default_props\<close> on a fresh page leaves.\<close>

definition mounted_sys :: sys where
  "mounted_sys =
     \<lparr>isListening = Some True, tabPressed = None, keydownListeners = 1,
      focusedByTab = False, node = Some \<lparr>hasFocus = False\<rparr>, nextTickQueue = 0\<rparr>"

text \<open>
  The same with \<^verbatim>\<open>autoFocus\<close>: the control has focus and the deferred check is queued.
\<close>

definition autofocused_sys :: sys where
  "autofocused_sys =
     \<lparr>isListening = Some True, tabPressed = Some True, keydownListeners = 1,
      focusedByTab = False, node = Some \<lparr>hasFocus = True\<rparr>, nextTickQueue = 1\<rparr>"

text \<open>
  An event sequence is settled from a state when no blur event arrives while a deferred
  check is still queued.
\<close>

fun settled :: "('h, 'c) props \<Rightarrow> event list \<Rightarrow> sys \<Rightarrow> bool" where
  "settled p [] s = True"
| "settled p (ev # es) s =
     ((ev = BlurEvent \<longrightarrow> nextTickQueue s = 0) \<and> settled p es (step p ev s))"

text \<open>
  The invariant of a mounted instance: it has its control, and whenever
  \<open>focusedByTab\<close> is set or a deferred check is queued, the control holds focus.
\<close>

definition focus_inv :: "sys \<Rightarrow> bool" where
  "focus_inv s =
     (node s \<noteq> None \<and> (focusedByTab s \<or> 0 < nextTickQueue s \<longrightarrow> holdsFocus s))"

text \<open>The detector's flag and the listener agree: listening means a listener is attached.\<close>

definition detector_ok :: "sys \<Rightarrow> bool" where
  "detector_ok s = (truthy (isListening s) \<longrightarrow> 0 < keydownListeners s)"

text \<open>
  A tree with the parts blanked out that the link override rewrites: the root class set,
  the \<^verbatim>\<open>textAlign\<close> style, the wrapper class, and the loading, arrow and
  error-or-warning children. Two trees that are equal after blanking agree on every
  other property.
\<close>

definition outside_link_override :: "('h, 'c) rendered \<Rightarrow> ('h, 'c) rendered" where
  "outside_link_override out =
     out\<lparr>out_rootProps :=
           (out_rootProps out)
             \<lparr>root_className := [],
              root_style := (root_style (out_rootProps out))\<lparr>style_textAlign := None\<rparr>\<rparr>,
         out_wrapProps := (out_wrapProps out)\<lparr>wrap_className := None\<rparr>,
         out_loading := None,
         out_arrow := None,
         out_error := None\<rparr>"

section \<open>Error and warning markers\<close>

text \<open>
  Claim C1. When the style sheet is loaded, render returns a tree for every
  configuration, and its error-or-warning child is: nothing when use is 'link'; else
  the error marker when the error flag is set; else the warning marker when the warning
  flag is set; else nothing. So at most one marker is rendered and error wins over
  warning.
\<close>

theorem render_error_marker:
  assumes "cssStyles e = Some css"
  shows "\<exists>out. render e classes p fbt = Inr out \<and>
     out_error out =
       (if props_use p = ''link'' then None
        else if truthy (error p) then Some (Div (classes ''error''))
        else if truthy (warning p) then Some (Div (classes ''warning''))
        else None)"
  using assms by (simp add: render_def render_base_def link_override_def)

theorem render_error_marker_witness:
  "cssStyles example_env = Some example_classes \<and>
   \<not> isl (render example_env example_classes
            (default_props\<lparr>error := Some True, warning := Some True\<rparr>) False) \<and>
   out_error (projr (render example_env example_classes
       (default_props\<lparr>error := Some True, warning := Some True\<rparr>) False)) =
     Some (Div (Some ''Button-error'')) \<and>
   out_error (projr (render example_env example_classes
       (default_props\<lparr>error := Some True, use_prop := Some ''link''\<rparr>) False)) = None"
proof -
  have h: "cssStyles example_env = Some example_classes"
    by (simp add: example_env_def)
  have a: "props_use (default_props\<lparr>error := Some True, warning := Some True\<rparr>) \<noteq> ''link''"
    by (simp add: props_use_def default_props_def)
  have b: "props_use (default_props\<lparr>error := Some True, use_prop := Some ''link''\<rparr>) = ''link''"
    by (simp add: props_use_def)
  from render_error_marker [OF h, of example_classes
      "default_props\<lparr>error := Some True, warning := Some True\<rparr>" False]
    render_error_marker [OF h, of example_classes
      "default_props\<lparr>error := Some True, use_prop := Some ''link''\<rparr>" False]
  show ?thesis
    using h a b by (auto simp: truthy_def example_classes_def)
qed

section \<open>Border radius\<close>

text \<open>
  Claim C2. For every corner mask from 0 to 15 the border radius lists four values, for
  the top-left, top-right, bottom-right and bottom-left corner in this order, separated
  by single spaces; a value is "0" when the bit of its corner (bits 0, 1, 2, 3) is set
  in the mask and "2px" otherwise. Without a corners configuration the result is that
  of mask 0, "2px 2px 2px 2px".
\<close>

theorem borderRadius_mask:
  "(\<forall>m \<in> {0..15}.
      borderRadius Corners (Some m) =
        (if bit m 0 then ''0'' else ''2px'') @ '' '' @
        (if bit m 1 then ''0'' else ''2px'') @ '' '' @
        (if bit m 2 then ''0'' else ''2px'') @ '' '' @
        (if bit m 3 then ''0'' else ''2px'')) \<and>
   borderRadius Corners None = borderRadius Corners (Some 0) \<and>
   borderRadius Corners None = ''2px 2px 2px 2px''"
proof (intro conjI ballI)
  fix m :: int
  assume "m \<in> {0..15}"
  then have "m \<in> set [0..15]"
    by simp
  then have "m \<in> {0, 1, 2, 3, 4, 5, 6, 7, 8, 9, 10, 11, 12, 13, 14, 15}"
    by (simp add: upto.simps)
  then show "borderRadius Corners (Some m) =
        (if bit m 0 then ''0'' else ''2px'') @ '' '' @
        (if bit m 1 then ''0'' else ''2px'') @ '' '' @
        (if bit m 2 then ''0'' else ''2px'') @ '' '' @
        (if bit m 3 then ''0'' else ''2px'')"
    by (elim insertE emptyE)
      (simp_all add: borderRadius_def Corners_def corner_radius_def js_bitand_def)
next
  show "borderRadius Corners None = borderRadius Corners (Some 0)"
    by (simp add: borderRadius_def)
next
  show "borderRadius Corners None = ''2px 2px 2px 2px''"
    by (simp add: borderRadius_def Corners_def corner_radius_def js_bitand_def)
qed

theorem borderRadius_mask_witness:
  "(5::int) \<in> {0..15} \<and> borderRadius Corners (Some 5) = ''0 2px 0 2px'' \<and>
   (10::int) \<in> {0..15} \<and> borderRadius Corners (Some 10) = ''2px 0 2px 0''"
proof -
  have h: "(5::int) \<in> {0..15}" "(10::int) \<in> {0..15}"
    by simp_all
  from borderRadius_mask have
    "\<forall>m \<in> {0..15}. borderRadius Corners (Some m) =
        (if bit m 0 then ''0'' else ''2px'') @ '' '' @
        (if bit m 1 then ''0'' else ''2px'') @ '' '' @
        (if bit m 2 then ''0'' else ''2px'') @ '' '' @
        (if bit m 3 then ''0'' else ''2px'')"
    by (rule conjunct1)
  from this [rule_format, OF h(1)] this [rule_format, OF h(2)] h
  show ?thesis by simp
qed

section \<open>The tab-focus detector\<close>

lemma dispatch_keydown_eq:
  "dispatch_keydown k s =
     (if keydownListeners s = 0 then s else s\<lparr>tabPressed := Some (k = KEYCODE_TAB)\<rparr>)"
proof -
  have "(keydown_listener k ^^ n) s =
      (if n = 0 then s else s\<lparr>tabPressed := Some (k = KEYCODE_TAB)\<rparr>)" for n
    by (induction n) (simp_all add: keydown_listener_def)
  then show ?thesis by (simp add: dispatch_keydown_def)
qed

lemma listenTabPresses_funpow:
  "(listenTabPresses ^^ Suc n) s = listenTabPresses s"
  by (induction n) (simp_all add: listenTabPresses_def truthy_def)

text \<open>
  Claim C6. From a state in which the detector is not active and no listener is
  attached, any number n of at least 1 of calls of the 'ensure active' operation leaves
  the state that the first call alone produces, with exactly one keydown listener
  attached; a keydown then sets the flag to true when the key code is that of Tab (9)
  and to false otherwise.
\<close>

theorem listenTabPresses_idempotent:
  assumes "\<not> truthy (isListening s)" and "keydownListeners s = 0" and "1 \<le> n"
  shows "(listenTabPresses ^^ n) s = listenTabPresses s \<and>
         keydownListeners ((listenTabPresses ^^ n) s) = 1 \<and>
         (\<forall>keyCode. tabPressed (dispatch_keydown keyCode ((listenTabPresses ^^ n) s)) =
            Some (keyCode = 9)) \<and>
         KEYCODE_TAB = 9"
proof -
  from assms(3) obtain m where n: "n = Suc m"
    by (cases n) auto
  have e: "(listenTabPresses ^^ n) s = listenTabPresses s"
    unfolding n by (rule listenTabPresses_funpow)
  show ?thesis
    unfolding e using assms(1,2)
    by (simp add: listenTabPresses_def dispatch_keydown_eq KEYCODE_TAB_def)
qed

theorem listenTabPresses_idempotent_witness:
  "\<not> truthy (isListening init_sys) \<and> keydownListeners init_sys = 0 \<and> (1::nat) \<le> 3 \<and>
   (listenTabPresses ^^ 3) init_sys = listenTabPresses init_sys \<and>
   keydownListeners ((listenTabPresses ^^ 3) init_sys) = 1 \<and>
   tabPressed (dispatch_keydown 9 ((listenTabPresses ^^ 3) init_sys)) = Some True \<and>
   tabPressed (dispatch_keydown 13 ((listenTabPresses ^^ 3) init_sys)) = Some False"
proof -
  have h: "\<not> truthy (isListening init_sys)" "keydownListeners init_sys = 0" "(1::nat) \<le> 3"
    by (simp_all add: init_sys_def truthy_def)
  note t = listenTabPresses_idempotent [OF h]
  from t have k: "tabPressed (dispatch_keydown keyCode ((listenTabPresses ^^ 3) init_sys)) =
      Some (keyCode = 9)" for keyCode
    by blast
  have k9: "tabPressed (dispatch_keydown 9 ((listenTabPresses ^^ 3) init_sys)) = Some True"
    using k [of 9] by simp
  have k13: "tabPressed (dispatch_keydown 13 ((listenTabPresses ^^ 3) init_sys)) = Some False"
    using k [of 13] by simp
  from h t k9 k13 show ?thesis by blast
qed

section \<open>The imperative controls\<close>

text \<open>
  Claim C9. focus() and blur() always return normally. Without a control (no node, as
  before mount or after unmount) each leaves the state as it is. With a control, after
  focus() the control holds input focus and after blur() it does not.
\<close>

theorem focus_blur_total:
  "(\<exists>s'. focus p s = Inr s') \<and> (\<exists>s'. blur s = Inr s') \<and>
   (node s = None \<longrightarrow> focus p s = Inr s \<and> blur s = Inr s) \<and>
   (node s \<noteq> None \<longrightarrow>
      (\<exists>s'. focus p s = Inr s' \<and> holdsFocus s') \<and>
      (\<exists>s'. blur s = Inr s' \<and> \<not> holdsFocus s'))"
  by (cases "node s")
    (auto simp: focus_def blur_def node_focus_def node_blur_def holdsFocus_def
      handleFocus_def handleBlur_def)

theorem focus_blur_total_witness:
  "node init_sys = None \<and>
   focus default_props init_sys = Inr init_sys \<and> blur init_sys = Inr init_sys \<and>
   node (ref_cb (Some \<lparr>hasFocus = False\<rparr>) init_sys) \<noteq> None \<and>
   \<not> isl (focus default_props (ref_cb (Some \<lparr>hasFocus = False\<rparr>) init_sys)) \<and>
   holdsFocus (projr (focus default_props (ref_cb (Some \<lparr>hasFocus = False\<rparr>) init_sys))) \<and>
   \<not> isl (blur (ref_cb (Some \<lparr>hasFocus = False\<rparr>) init_sys)) \<and>
   \<not> holdsFocus (projr (blur (ref_cb (Some \<lparr>hasFocus = False\<rparr>) init_sys)))"
proof -
  have a: "node init_sys = None"
    by (simp add: init_sys_def)
  have b: "node (ref_cb (Some \<lparr>hasFocus = False\<rparr>) init_sys) \<noteq> None"
    by (simp add: ref_cb_def)
  from focus_blur_total [of default_props init_sys]
    focus_blur_total [of default_props "ref_cb (Some \<lparr>hasFocus = False\<rparr>) init_sys"]
  show ?thesis
    using a b by auto
qed

section \<open>Focus handling\<close>

lemma drain_funpow:
  "nextTickQueue s = n \<Longrightarrow>
   (step p NextTick ^^ n) s =
     (if n = 0 then s
      else if truthy (tabPressed s)
      then s\<lparr>nextTickQueue := 0, focusedByTab := True, tabPressed := Some False\<rparr>
      else s\<lparr>nextTickQueue := 0\<rparr>)"
proof (induction n arbitrary: s)
  case 0
  then show ?case by simp
next
  case (Suc n)
  let ?s1 = "step p NextTick s"
  have q: "nextTickQueue ?s1 = n"
    using Suc.prems by (simp add: deferred_check_def)
  have s1: "?s1 = (if truthy (tabPressed s)
      then s\<lparr>nextTickQueue := n, focusedByTab := True, tabPressed := Some False\<rparr>
      else s\<lparr>nextTickQueue := n\<rparr>)"
    using Suc.prems by (simp add: deferred_check_def)
  have "(step p NextTick ^^ Suc n) s = (step p NextTick ^^ n) ?s1"
    by (simp add: funpow_swap1)
  also have "\<dots> = (if n = 0 then ?s1
      else if truthy (tabPressed ?s1)
      then ?s1\<lparr>nextTickQueue := 0, focusedByTab := True, tabPressed := Some False\<rparr>
      else ?s1\<lparr>nextTickQueue := 0\<rparr>)"
    by (rule Suc.IH [OF q])
  also have "\<dots> = (if Suc n = 0 then s
      else if truthy (tabPressed s)
      then s\<lparr>nextTickQueue := 0, focusedByTab := True, tabPressed := Some False\<rparr>
      else s\<lparr>nextTickQueue := 0\<rparr>)"
    unfolding s1 using Suc.prems by (simp add: truthy_def)
  finally show ?case .
qed

lemma drain_eq:
  "drain p s =
     (if nextTickQueue s = 0 then s
      else if truthy (tabPressed s)
      then s\<lparr>nextTickQueue := 0, focusedByTab := True, tabPressed := Some False\<rparr>
      else s\<lparr>nextTickQueue := 0\<rparr>)"
  unfolding drain_def by (rule drain_funpow) simp

lemma mount_eq:
  "mount p s =
     Inr (let s1 = listenTabPresses (s\<lparr>node := Some \<lparr>hasFocus = False\<rparr>\<rparr>)
          in if truthy (autoFocus p)
             then handleFocus p (s1\<lparr>tabPressed := Some True, node := Some \<lparr>hasFocus = True\<rparr>\<rparr>)
             else s1)"
  by (simp add: mount_def componentDidMount_def ref_cb_def focus_def node_focus_def
      listenTabPresses_def Let_def)

text \<open>
  Mounting a fresh instance always returns; from a state in which the detector's flag
  and listener agree it establishes the invariant and leaves the detector active.
\<close>

lemma mount_establishes:
  assumes "detector_ok s" and "\<not> focusedByTab s" and "nextTickQueue s = 0"
  shows "\<exists>s1. mount p s = Inr s1 \<and> focus_inv s1 \<and> 0 < keydownListeners s1"
  using assms unfolding mount_eq detector_ok_def
  by (simp add: Let_def listenTabPresses_def handleFocus_def focus_inv_def holdsFocus_def
      truthy_def)

lemma mount_default_props: "mount default_props init_sys = Inr mounted_sys"
  unfolding mount_eq
  by (simp add: Let_def listenTabPresses_def init_sys_def mounted_sys_def default_props_def
      truthy_def)

lemma mount_autoFocus_props:
  "mount (default_props\<lparr>autoFocus := Some True\<rparr>) init_sys = Inr autofocused_sys"
  unfolding mount_eq
  by (simp add: Let_def listenTabPresses_def handleFocus_def init_sys_def autofocused_sys_def
      default_props_def truthy_def)

text \<open>
  Claim C3. With the detector active (a listener is attached, as after any mount):
  for an instance that is neither disabled nor focus-suppressed, a Tab keydown sets the
  flag, and after a following focus event and the run of the queued checks,
  focusedByTab is true and the flag is false; a focus event while the flag is not set
  leaves focusedByTab and the flag as they were. For a disabled or focus-suppressed
  instance the focus handler queues nothing and changes nothing.
\<close>

theorem tab_then_focus:
  assumes "0 < keydownListeners s"
  shows "(\<not> truthy (disabled p) \<and> \<not> truthy (disableFocus p) \<longrightarrow>
           tabPressed (step p (KeyDown KEYCODE_TAB) s) = Some True \<and>
           focusedByTab (drain p (step p FocusEvent (step p (KeyDown KEYCODE_TAB) s))) \<and>
           tabPressed (drain p (step p FocusEvent (step p (KeyDown KEYCODE_TAB) s))) =
             Some False \<and>
           (\<not> truthy (tabPressed s) \<longrightarrow>
              focusedByTab (drain p (step p FocusEvent s)) = focusedByTab s \<and>
              tabPressed (drain p (step p FocusEvent s)) = tabPressed s)) \<and>
         (truthy (disabled p) \<or> truthy (disableFocus p) \<longrightarrow>
            nextTickQueue (step p FocusEvent s) = nextTickQueue s \<and> handleFocus p s = s)"
  using assms
  by (simp add: drain_eq dispatch_keydown_eq handleFocus_def set_hasFocus_def truthy_def)

theorem tab_then_focus_witness:
  "0 < keydownListeners mounted_sys \<and>
   \<not> truthy (disabled default_props) \<and> \<not> truthy (disableFocus default_props) \<and>
   focusedByTab (drain default_props
     (step default_props FocusEvent (step default_props (KeyDown 9) mounted_sys))) \<and>
   tabPressed (drain default_props
     (step default_props FocusEvent (step default_props (KeyDown 9) mounted_sys))) =
     Some False \<and>
   \<not> truthy (tabPressed mounted_sys) \<and>
   \<not> focusedByTab (drain default_props (step default_props FocusEvent mounted_sys)) \<and>
   tabPressed (drain default_props (step default_props FocusEvent mounted_sys)) = None \<and>
   truthy (disabled (default_props\<lparr>disabled := Some True\<rparr>)) \<and>
   nextTickQueue (step (default_props\<lparr>disabled := Some True\<rparr>) FocusEvent mounted_sys) = 0"
proof -
  have h: "0 < keydownListeners mounted_sys"
    by (simp add: mounted_sys_def)
  have a: "\<not> truthy (disabled default_props)" "\<not> truthy (disableFocus default_props)"
    "\<not> truthy (tabPressed mounted_sys)" "truthy (disabled (default_props\<lparr>disabled := Some True\<rparr>))"
    "\<not> focusedByTab mounted_sys" "tabPressed mounted_sys = None" "nextTickQueue mounted_sys = 0"
    by (simp_all add: default_props_def mounted_sys_def truthy_def)
  from tab_then_focus [OF h, of default_props]
    tab_then_focus [OF h, of "default_props\<lparr>disabled := Some True\<rparr>"]
  show ?thesis
    using h a by (simp add: KEYCODE_TAB_def)
qed

section \<open>Focus only while focused\<close>

lemma step_focus_inv:
  assumes "focus_inv s" and "ev = BlurEvent \<longrightarrow> nextTickQueue s = 0"
  shows "focus_inv (step p ev s)"
proof (cases ev)
  case (KeyDown k)
  with assms show ?thesis
    by (simp add: focus_inv_def dispatch_keydown_eq holdsFocus_def)
next
  case FocusEvent
  with assms show ?thesis
    by (auto simp: focus_inv_def handleFocus_def set_hasFocus_def holdsFocus_def)
next
  case BlurEvent
  with assms show ?thesis
    by (auto simp: focus_inv_def handleBlur_def set_hasFocus_def holdsFocus_def)
next
  case NextTick
  with assms show ?thesis
    by (auto simp: focus_inv_def deferred_check_def holdsFocus_def)
qed

lemma run_focus_inv:
  "focus_inv s \<Longrightarrow> settled p es s \<Longrightarrow> focus_inv (run p es s)"
proof (induction es arbitrary: s)
  case Nil
  then show ?case by (simp add: run_def)
next
  case (Cons ev es)
  from Cons.prems have "focus_inv (step p ev s)" and "settled p es (step p ev s)"
    by (simp_all add: step_focus_inv)
  then have "focus_inv (run p es (step p ev s))"
    by (rule Cons.IH)
  then show ?case by (simp add: run_def)
qed

text \<open>
  Claim C4, as stated, fails: with the flag set by a Tab keydown, a focus event followed
  by a blur event before the deferred check has run leaves the check queued, and when
  it runs it sets focusedByTab although the control no longer holds focus.
\<close>

theorem focusedByTab_after_blur_counterexample:
  "mount default_props init_sys = Inr mounted_sys \<and>
   \<not> focusedByTab (run default_props [KeyDown 9, FocusEvent, BlurEvent] mounted_sys) \<and>
   focusedByTab (run default_props [KeyDown 9, FocusEvent, BlurEvent, NextTick] mounted_sys) \<and>
   \<not> holdsFocus (run default_props [KeyDown 9, FocusEvent, BlurEvent, NextTick] mounted_sys)"
  using mount_default_props
  by (simp add: run_def dispatch_keydown_eq handleFocus_def handleBlur_def deferred_check_def
      set_hasFocus_def holdsFocus_def mounted_sys_def default_props_def truthy_def
      KEYCODE_TAB_def)

text \<open>
  Claim C4, amended. A blur event sets focusedByTab to false from every state and for
  every configuration. Over every sequence of keydown, focus, blur and
  deferred-check events in which no blur arrives while a deferred check is queued,
  starting from a mounted instance that satisfies the invariant, focusedByTab is true
  only while the control holds input focus.
\<close>

theorem focusedByTab_only_while_focused:
  "(\<forall>s0. \<not> focusedByTab (handleBlur s0) \<and> \<not> focusedByTab (step p BlurEvent s0)) \<and>
   (node s \<noteq> None \<and> (focusedByTab s \<or> 0 < nextTickQueue s \<longrightarrow> holdsFocus s) \<and>
    settled p es s \<longrightarrow>
      (focusedByTab (run p es s) \<longrightarrow> holdsFocus (run p es s)))"
proof (intro conjI allI impI)
  fix s0
  show "\<not> focusedByTab (handleBlur s0)"
    by (simp add: handleBlur_def)
  show "\<not> focusedByTab (step p BlurEvent s0)"
    by (simp add: handleBlur_def)
next
  assume a: "node s \<noteq> None \<and> (focusedByTab s \<or> 0 < nextTickQueue s \<longrightarrow> holdsFocus s) \<and>
    settled p es s" and f: "focusedByTab (run p es s)"
  from a have "focus_inv s"
    by (simp add: focus_inv_def)
  with a have "focus_inv (run p es s)"
    by (simp add: run_focus_inv)
  with f show "holdsFocus (run p es s)"
    by (simp add: focus_inv_def)
qed

theorem focusedByTab_only_while_focused_witness:
  "node autofocused_sys \<noteq> None \<and> 0 < nextTickQueue autofocused_sys \<and>
   holdsFocus autofocused_sys \<and>
   settled default_props [NextTick, BlurEvent, KeyDown 9, FocusEvent, NextTick] autofocused_sys \<and>
   focusedByTab
     (run default_props [NextTick, BlurEvent, KeyDown 9, FocusEvent, NextTick] autofocused_sys) \<and>
   holdsFocus
     (run default_props [NextTick, BlurEvent, KeyDown 9, FocusEvent, NextTick] autofocused_sys) \<and>
   \<not> focusedByTab (step default_props BlurEvent (step default_props NextTick autofocused_sys))"
proof -
  let ?es = "[NextTick, BlurEvent, KeyDown 9, FocusEvent, NextTick]"
  have h: "node autofocused_sys \<noteq> None" "0 < nextTickQueue autofocused_sys"
    "holdsFocus autofocused_sys"
    by (simp_all add: autofocused_sys_def holdsFocus_def)
  have s: "settled default_props ?es autofocused_sys"
    by (simp add: dispatch_keydown_eq handleFocus_def handleBlur_def deferred_check_def
        set_hasFocus_def autofocused_sys_def default_props_def truthy_def KEYCODE_TAB_def)
  have f: "focusedByTab (run default_props ?es autofocused_sys)"
    by (simp add: run_def dispatch_keydown_eq handleFocus_def handleBlur_def
        deferred_check_def set_hasFocus_def autofocused_sys_def default_props_def truthy_def
        KEYCODE_TAB_def)
  from focusedByTab_only_while_focused [of default_props autofocused_sys ?es] h s f
  show ?thesis
    by blast
qed

section \<open>Mounting with autoFocus\<close>

text \<open>
  Claim C5, as stated, fails: an instance with autoFocus that is focus-suppressed holds
  focus after mount, but its focus handler queues no check, so focusedByTab stays false
  and the flag stays true.
\<close>

theorem mount_autoFocus_counterexample:
  "truthy (autoFocus (default_props\<lparr>autoFocus := Some True, disableFocus := Some True\<rparr>)) \<and>
   \<not> isl (mount (default_props\<lparr>autoFocus := Some True, disableFocus := Some True\<rparr>) init_sys) \<and>
   holdsFocus
     (projr (mount (default_props\<lparr>autoFocus := Some True, disableFocus := Some True\<rparr>)
        init_sys)) \<and>
   \<not> focusedByTab
     (drain (default_props\<lparr>autoFocus := Some True, disableFocus := Some True\<rparr>)
        (projr (mount (default_props\<lparr>autoFocus := Some True, disableFocus := Some True\<rparr>)
           init_sys))) \<and>
   tabPressed
     (drain (default_props\<lparr>autoFocus := Some True, disableFocus := Some True\<rparr>)
        (projr (mount (default_props\<lparr>autoFocus := Some True, disableFocus := Some True\<rparr>)
           init_sys))) = Some True"
  unfolding mount_eq
  by (simp add: Let_def listenTabPresses_def handleFocus_def holdsFocus_def drain_eq
      init_sys_def truthy_def)

text \<open>
  Claim C5, amended. On mount with autoFocus set, the widget first ensures that the
  tab-focus detector is active, then sets the flag to true and invokes focus(); the
  instance holds focus immediately after mount; and when it is neither disabled nor
  focus-suppressed, focusedByTab is true and the flag is false after the deferred check
  has run.
\<close>

theorem mount_autoFocus:
  assumes "truthy (autoFocus p)"
  shows "mount p s =
           focus p ((listenTabPresses (ref_cb (Some \<lparr>hasFocus = False\<rparr>) s))
             \<lparr>tabPressed := Some True\<rparr>) \<and>
         (\<exists>s1. mount p s = Inr s1 \<and> truthy (isListening s1) \<and> holdsFocus s1 \<and>
            (\<not> truthy (disabled p) \<and> \<not> truthy (disableFocus p) \<longrightarrow>
               focusedByTab (drain p s1) \<and> tabPressed (drain p s1) = Some False))"
proof
  show "mount p s =
      focus p ((listenTabPresses (ref_cb (Some \<lparr>hasFocus = False\<rparr>) s))
        \<lparr>tabPressed := Some True\<rparr>)"
    using assms by (simp add: mount_def componentDidMount_def Let_def)
next
  show "\<exists>s1. mount p s = Inr s1 \<and> truthy (isListening s1) \<and> holdsFocus s1 \<and>
            (\<not> truthy (disabled p) \<and> \<not> truthy (disableFocus p) \<longrightarrow>
               focusedByTab (drain p s1) \<and> tabPressed (drain p s1) = Some False)"
    using assms unfolding mount_eq
    by (simp add: Let_def listenTabPresses_def handleFocus_def holdsFocus_def drain_eq
        truthy_def)
qed

theorem mount_autoFocus_witness:
  "truthy (autoFocus (default_props\<lparr>autoFocus := Some True\<rparr>)) \<and>
   \<not> truthy (disabled (default_props\<lparr>autoFocus := Some True\<rparr>)) \<and>
   \<not> truthy (disableFocus (default_props\<lparr>autoFocus := Some True\<rparr>)) \<and>
   mount (default_props\<lparr>autoFocus := Some True\<rparr>) init_sys = Inr autofocused_sys \<and>
   holdsFocus autofocused_sys \<and>
   focusedByTab (drain (default_props\<lparr>autoFocus := Some True\<rparr>) autofocused_sys) \<and>
   tabPressed (drain (default_props\<lparr>autoFocus := Some True\<rparr>) autofocused_sys) = Some False"
proof -
  let ?p = "default_props\<lparr>autoFocus := Some True\<rparr>"
  have h: "truthy (autoFocus ?p)"
    by (simp add: truthy_def)
  have a: "\<not> truthy (disabled ?p)" "\<not> truthy (disableFocus ?p)"
    by (simp_all add: default_props_def truthy_def)
  from mount_autoFocus [OF h, of init_sys] obtain s1 where
    m: "mount ?p init_sys = Inr s1" and f: "holdsFocus s1" and
    d: "\<not> truthy (disabled ?p) \<and> \<not> truthy (disableFocus ?p) \<longrightarrow>
         focusedByTab (drain ?p s1) \<and> tabPressed (drain ?p s1) = Some False"
    by blast
  from m have e: "s1 = autofocused_sys"
    by (simp add: mount_autoFocus_props)
  from h a m f d show ?thesis
    unfolding e by blast
qed


section \<open>Object literals and class lists\<close>

lemma obj_put_keys:
  "map fst (obj_put k v obj) = (if k \<in> fst ` set obj then map fst obj else map fst obj @ [k])"
  by (induction k v obj rule: obj_put.induct) (simp_all add: image_iff)

lemma obj_put_distinct: "distinct (map fst obj) \<Longrightarrow> distinct (map fst (obj_put k v obj))"
  by (simp add: obj_put_keys)

lemma obj_put_map_of: "map_of (obj_put k v obj) = (map_of obj)(k \<mapsto> v)"
  by (induction obj) (auto simp: fun_eq_iff)

lemma foldl_obj_put:
  "distinct (map fst acc) \<Longrightarrow>
   distinct (map fst (foldl (\<lambda>obj (k, v). obj_put k v obj) acc es)) \<and>
   map_of (foldl (\<lambda>obj (k, v). obj_put k v obj) acc es) = map_of (rev es @ acc)"
proof (induction es arbitrary: acc)
  case Nil
  then show ?case by simp
next
  case (Cons e es)
  obtain k v where e: "e = (k, v)"
    by (cases e)
  have d: "distinct (map fst (obj_put k v acc))"
    using Cons.prems by (rule obj_put_distinct)
  have "map_of (rev es @ obj_put k v acc) = map_of (rev es @ [(k, v)] @ acc)"
    by (simp add: obj_put_map_of fun_eq_iff map_add_def split: option.splits)
  with Cons.IH [OF d] show ?case
    by (simp add: e)
qed

lemma object_literal_distinct: "distinct (map fst (object_literal es))"
  using foldl_obj_put [of "[]" es] by (simp add: object_literal_def)

text \<open>The value of a key in an object literal is that of its last entry.\<close>

lemma object_literal_map_of: "map_of (object_literal es) = map_of (rev es)"
  using foldl_obj_put [of "[]" es] by (simp add: object_literal_def)

lemma classNames_distinct: "distinct (map fst obj) \<Longrightarrow> distinct (classNames obj)"
  unfolding classNames_def by (simp add: distinct_map_filter)

lemma classNames_mem:
  "distinct (map fst obj) \<Longrightarrow> k \<in> set (classNames obj) \<longleftrightarrow> map_of obj k = Some (Some True)"
  unfolding classNames_def by (auto simp: truthy_def image_iff)

lemma classNames_literal_mem:
  "k \<in> set (classNames (object_literal es)) \<longleftrightarrow> map_of (rev es) k = Some (Some True)"
  by (simp add: classNames_mem object_literal_distinct object_literal_map_of)

lemma classNames_literal_distinct: "distinct (classNames (object_literal es))"
  by (simp add: classNames_distinct object_literal_distinct)

lemma classNames_literal_subset:
  "set (classNames (object_literal es)) \<subseteq> fst ` set es"
proof
  fix k assume "k \<in> set (classNames (object_literal es))"
  then have "map_of (rev es) k = Some (Some True)"
    by (simp add: classNames_literal_mem)
  then have "(k, Some True) \<in> set (rev es)"
    by (rule map_of_SomeD)
  then show "k \<in> fst ` set es"
    by (force simp: image_iff)
qed

lemma count_list_distinct: "distinct xs \<Longrightarrow> count_list xs x = (if x \<in> set xs then 1 else 0)"
  by (induction xs) auto

lemma filter_single:
  "distinct xs \<Longrightarrow> x \<in> set xs \<Longrightarrow> P x \<Longrightarrow> (\<forall>y \<in> set xs. P y \<longrightarrow> y = x) \<Longrightarrow>
   filter P xs = [x]"
proof (induction xs)
  case Nil
  then show ?case by simp
next
  case (Cons a xs)
  from Cons.prems(1) have d: "distinct xs" and n: "a \<notin> set xs"
    by simp_all
  from Cons.prems(4) have pa: "P a \<longrightarrow> a = x" and u: "\<forall>y \<in> set xs. P y \<longrightarrow> y = x"
    by simp_all
  show ?case
  proof (cases "a = x")
    case True
    with n u have "\<forall>y \<in> set xs. \<not> P y"
      by blast
    then have "filter P xs = []"
      by (simp add: filter_empty_conv)
    with True Cons.prems(3) show ?thesis
      by simp
  next
    case False
    with Cons.prems(2) have m: "x \<in> set xs"
      by auto
    have "filter P xs = [x]"
      using d m Cons.prems(3) u by (rule Cons.IH)
    moreover from False pa have "\<not> P a"
      by blast
    ultimately show ?thesis
      by simp
  qed
qed

section \<open>The root class set\<close>

lemma render_root:
  assumes "cssStyles e = Some css"
  shows "\<exists>out. render e classes p fbt = Inr out \<and>
     root_disabled (out_rootProps out) = js_or (disabled p) (loading p) \<and>
     root_className (out_rootProps out) =
       classNames (object_literal
         (if props_use p = ''link'' then link_class_entries e classes p fbt
          else root_class_entries e classes css p fbt))"
  using assms by (simp add: render_def render_base_def link_override_def)

lemma val_key_js_str: "val_key (js_str v) = prop_key v"
  by (cases v) (simp_all add: val_key_def js_str_def prop_key_def)

lemma Object_prototype_key: "val_key (Object_prototype n) \<in> set (''undefined'' # inherited_keys)"
proof (cases "n \<in> set inherited_names")
  case True
  then have "val_key (Object_prototype n) \<in> set inherited_keys"
    unfolding inherited_keys_def by simp
  then show ?thesis
    by simp
next
  case False
  then show ?thesis
    by (simp add: Object_prototype_def val_key_def)
qed

lemma example_inherited_keys:
  "inherited_keys =
     [''function Object() { [native code] }'',
      ''function __defineGetter__() { [native code] }'',
      ''function __defineSetter__() { [native code] }'',
      ''function hasOwnProperty() { [native code] }'',
      ''function __lookupGetter__() { [native code] }'',
      ''function __lookupSetter__() { [native code] }'',
      ''function isPrototypeOf() { [native code] }'',
      ''function propertyIsEnumerable() { [native code] }'',
      ''function toString() { [native code] }'',
      ''function valueOf() { [native code] }'',
      ''[object Object]'',
      ''function toLocaleString() { [native code] }'']"
  by (simp add: inherited_keys_def inherited_names_def Object_prototype_def val_key_def)

lemma example_wf: "wf_styles example_classes example_classes"
  unfolding wf_styles_def example_inherited_keys
  by (simp add: variant_classes_def variant_names_def other_classes_def example_classes_def
      prop_key_def)

lemma example_css: "cssStyles example_env = Some example_classes"
  by (simp add: example_env_def)

text \<open>The class lists of the sample table, for the configurations used below.\<close>

lemma example_root_classes:
  "classNames (object_literal (root_class_entries example_env example_classes example_classes
      (default_props\<lparr>disabled := Some True, loading := Some True\<rparr>) False)) =
     [''Button-root'', ''Button-default'', ''Button-disabled'', ''Button-sizeSmall'']"
  "classNames (object_literal (root_class_entries example_env example_classes example_classes
      (default_props\<lparr>use_prop := Some ''active''\<rparr>) False)) =
     [''Button-root'', ''Button-sizeSmall'']"
  "classNames (object_literal (root_class_entries example_env example_classes example_classes
      (default_props\<lparr>use_prop := Some ''primary''\<rparr>) False)) =
     [''Button-root'', ''Button-primary'', ''Button-sizeSmall'']"
  "classNames (object_literal (root_class_entries example_env example_classes example_classes
      (default_props\<lparr>use_prop := Some ''bogus''\<rparr>) False)) =
     [''Button-root'', ''Button-default'', ''Button-sizeSmall'']"
  "classNames (object_literal (root_class_entries example_env example_classes example_classes
      (default_props\<lparr>use_prop := Some ''constructor''\<rparr>) False)) =
     [''Button-root'', ''function Object() { [native code] }'', ''Button-sizeSmall'']"
  by (simp_all add: root_class_entries_def object_literal_def classNames_def
      example_classes_def SIZE_CLASSES_def props_use_def props_size_def default_props_def
      prop_key_def js_get_def js_or_val_def truthy_val_def val_key_def js_str_def
      Object_prototype_def inherited_names_def truthy_str_def js_or_def truthy_def)

lemma example_link_classes:
  "classNames (object_literal (link_class_entries example_env example_classes
      (default_props\<lparr>use_prop := Some ''link'', loading := Some True\<rparr>) False)) =
     [''Button-root'', ''Button-link'', ''Button-sizeSmall'']"
  by (simp add: link_class_entries_def object_literal_def classNames_def example_classes_def
      SIZE_CLASSES_def props_size_def default_props_def prop_key_def val_key_def js_str_def
      js_or_def truthy_str_def truthy_def)

section \<open>Disabled class and disabled attribute\<close>

lemma wf_other_distinct:
  "wf_styles classes css \<Longrightarrow> distinct (''undefined'' # other_classes classes css)"
  by (simp add: wf_styles_def)

lemma wf_other_not_inherited:
  "wf_styles classes css \<Longrightarrow> k \<in> set (other_classes classes css) \<Longrightarrow>
   k \<notin> set inherited_keys"
  by (auto simp: wf_styles_def)

lemma size_key_cases:
  "val_key (SIZE_CLASSES e classes sz) \<in>
     {prop_key (classes ''sizeSmall''), prop_key (classes ''sizeMedium''),
      prop_key (classes ''DEPRECATED_sizeMedium''), prop_key (classes ''sizeLarge''),
      ''undefined''} \<union> set inherited_keys"
  using Object_prototype_key [of sz]
  by (simp add: SIZE_CLASSES_def val_key_js_str)

lemma wf_disabled_size:
  assumes "wf_styles classes css"
  shows "prop_key (classes ''disabled'') \<noteq> val_key (SIZE_CLASSES e classes sz)"
proof -
  have "prop_key (classes ''disabled'') \<in> set (other_classes classes css)"
    by (simp add: other_classes_def)
  with assms have i: "prop_key (classes ''disabled'') \<notin> set inherited_keys"
    by (rule wf_other_not_inherited)
  from wf_other_distinct [OF assms] have
    "prop_key (classes ''disabled'') \<notin>
       {prop_key (classes ''sizeSmall''), prop_key (classes ''sizeMedium''),
        prop_key (classes ''DEPRECATED_sizeMedium''), prop_key (classes ''sizeLarge''),
        ''undefined''}"
    by (simp add: other_classes_def) auto
  with i size_key_cases [of e classes sz] show ?thesis
    by auto
qed

lemma wf_disabled_key:
  assumes "wf_styles classes css"
  shows "prop_key (classes ''disabled'') \<noteq> prop_key (classes ''narrow'')"
    and "prop_key (classes ''disabled'') \<noteq> prop_key (classes ''noPadding'')"
    and "prop_key (classes ''disabled'') \<noteq> prop_key (classes ''noRightPadding'')"
    and "prop_key (classes ''disabled'') \<noteq> prop_key (classes ''buttonWithIcon'')"
    and "prop_key (classes ''disabled'') \<noteq> prop_key (classes ''focus'')"
    and "prop_key (classes ''disabled'') \<noteq> prop_key (css ''borderless'')"
    and "prop_key (classes ''disabled'') \<noteq> val_key (SIZE_CLASSES e classes sz)"
  using wf_other_distinct [OF assms] wf_disabled_size [OF assms, of e sz]
  by (simp_all add: other_classes_def)

lemma disabled_in_root:
  assumes "wf_styles classes css"
  shows "prop_key (classes ''disabled'') \<in>
       set (classNames (object_literal (root_class_entries e classes css p fbt))) \<longleftrightarrow>
     truthy (disabled p) \<or> truthy (loading p)"
  by (simp add: classNames_literal_mem root_class_entries_def wf_disabled_key [OF assms]
      js_or_def truthy_def)

lemma disabled_in_link:
  assumes "wf_styles classes css"
  shows "prop_key (classes ''disabled'') \<in>
       set (classNames (object_literal (link_class_entries e classes p fbt))) \<longleftrightarrow>
     truthy (disabled p)"
  by (simp add: classNames_literal_mem link_class_entries_def wf_disabled_key [OF assms]
      truthy_def)

text \<open>
  Claim C7, as stated, fails: under use = 'link' a button that is loading and not
  disabled gets the disabled attribute but not the disabled class.
\<close>

theorem disabled_class_link_counterexample:
  "truthy (loading (default_props\<lparr>use_prop := Some ''link'', loading := Some True\<rparr>)) \<and>
   \<not> isl (render example_env example_classes
       (default_props\<lparr>use_prop := Some ''link'', loading := Some True\<rparr>) False) \<and>
   prop_key (example_classes ''disabled'') = ''Button-disabled'' \<and>
   ''Button-disabled'' \<notin> set (root_className (out_rootProps (projr
       (render example_env example_classes
          (default_props\<lparr>use_prop := Some ''link'', loading := Some True\<rparr>) False)))) \<and>
   truthy (root_disabled (out_rootProps (projr
       (render example_env example_classes
          (default_props\<lparr>use_prop := Some ''link'', loading := Some True\<rparr>) False))))"
proof -
  let ?p = "default_props\<lparr>use_prop := Some ''link'', loading := Some True\<rparr>"
  have u: "props_use ?p = ''link''"
    by (simp add: props_use_def)
  from render_root [OF example_css, of example_classes ?p False] obtain out where
    r: "render example_env example_classes ?p False = Inr out" and
    d: "root_disabled (out_rootProps out) = js_or (disabled ?p) (loading ?p)" and
    c: "root_className (out_rootProps out) =
       classNames (object_literal (link_class_entries example_env example_classes ?p False))"
    unfolding u by auto
  have k: "prop_key (example_classes ''disabled'') = ''Button-disabled''"
    by (simp add: example_classes_def prop_key_def)
  have t: "truthy (loading ?p)" "truthy (js_or (disabled ?p) (loading ?p))"
    by (simp_all add: js_or_def truthy_def default_props_def)
  have n: "''Button-disabled'' \<notin> set (root_className (out_rootProps out))"
    unfolding c example_link_classes by simp
  from t n k d show ?thesis
    unfolding r by simp
qed

text \<open>
  Claim C7, amended. With the style sheet loaded and a well-formed style table, for
  every configuration: the disabled attribute of the control is disabled || loading, so
  each of the two flags sets it; when use is not 'link', the disabled class is in the
  root class list exactly when disabled or loading is set, and then exactly once, also
  when both are set; when use is 'link', the disabled class is in the list exactly when
  disabled is set, and then exactly once (loading alone does not add it).
\<close>

theorem disabled_class_and_attribute:
  assumes "cssStyles e = Some css" and "wf_styles classes css"
  shows "\<exists>out. render e classes p fbt = Inr out \<and>
     root_disabled (out_rootProps out) = js_or (disabled p) (loading p) \<and>
     truthy (root_disabled (out_rootProps out)) = (truthy (disabled p) \<or> truthy (loading p)) \<and>
     count_list (root_className (out_rootProps out)) (prop_key (classes ''disabled'')) =
       (if (if props_use p = ''link'' then truthy (disabled p)
            else truthy (disabled p) \<or> truthy (loading p)) then 1 else 0)"
proof -
  from render_root [OF assms(1), of classes p fbt] obtain out where
    r: "render e classes p fbt = Inr out" and
    d: "root_disabled (out_rootProps out) = js_or (disabled p) (loading p)" and
    c: "root_className (out_rootProps out) =
       classNames (object_literal
         (if props_use p = ''link'' then link_class_entries e classes p fbt
          else root_class_entries e classes css p fbt))"
    by blast
  have t: "truthy (js_or (disabled p) (loading p)) = (truthy (disabled p) \<or> truthy (loading p))"
    by (simp add: js_or_def)
  have n: "count_list (root_className (out_rootProps out)) (prop_key (classes ''disabled'')) =
       (if (if props_use p = ''link'' then truthy (disabled p)
            else truthy (disabled p) \<or> truthy (loading p)) then 1 else 0)"
    unfolding c
    by (simp add: count_list_distinct classNames_literal_distinct
        disabled_in_root [OF assms(2)] disabled_in_link [OF assms(2)])
  from r d t n show ?thesis
    by simp
qed

theorem disabled_class_and_attribute_witness:
  "cssStyles example_env = Some example_classes \<and>
   wf_styles example_classes example_classes \<and>
   \<not> isl (render example_env example_classes
       (default_props\<lparr>disabled := Some True, loading := Some True\<rparr>) False) \<and>
   truthy (root_disabled (out_rootProps (projr (render example_env example_classes
       (default_props\<lparr>disabled := Some True, loading := Some True\<rparr>) False)))) \<and>
   count_list (root_className (out_rootProps (projr (render example_env example_classes
       (default_props\<lparr>disabled := Some True, loading := Some True\<rparr>) False))))
     ''Button-disabled'' = 1"
proof -
  let ?p = "default_props\<lparr>disabled := Some True, loading := Some True\<rparr>"
  have u: "props_use ?p \<noteq> ''link''"
    by (simp add: props_use_def default_props_def)
  have k: "prop_key (example_classes ''disabled'') = ''Button-disabled''"
    by (simp add: example_classes_def prop_key_def)
  have f: "truthy (disabled ?p)" "truthy (loading ?p)"
    by (simp_all add: truthy_def)
  from disabled_class_and_attribute [OF example_css example_wf, of ?p False]
  show ?thesis
    using example_css example_wf u k f by auto
qed

section \<open>The variant class\<close>

lemma wf_variant_defined:
  assumes "wf_styles classes css" and "name \<in> set variant_names"
  shows "truthy_str (classes name)"
proof -
  from assms have "prop_key (classes name) \<in> set (variant_classes classes)"
    by (simp add: variant_classes_def)
  with assms(1) have "prop_key (classes name) \<noteq> ''undefined''" "prop_key (classes name) \<noteq> []"
    by (auto simp: wf_styles_def)
  then show ?thesis
    by (cases "classes name") (simp_all add: prop_key_def truthy_str_def)
qed

lemma wf_variant_not_other:
  assumes "wf_styles classes css" and "k \<in> set (variant_classes classes)"
  shows "k \<notin> set (''undefined'' # other_classes classes css @ inherited_keys)"
  using assms by (auto simp: wf_styles_def)

text \<open>
  \<^verbatim>\<open>classes[use] || classes.default\<close> for a recognized variant, and for a value that the
  lookup does not find.
\<close>

lemma variant_key:
  assumes "wf_styles classes css"
    and "props_use p \<in> set variant_names \<or> \<not> truthy_val (js_get classes (props_use p))"
  shows "val_key (js_or_val (js_get classes (props_use p)) (js_str (classes ''default''))) =
         prop_key (classes (if props_use p \<in> set variant_names then props_use p else ''default''))"
proof (cases "props_use p \<in> set variant_names")
  case True
  with assms(1) have "truthy_str (classes (props_use p))"
    by (rule wf_variant_defined)
  then obtain c where c: "classes (props_use p) = Some c" "c \<noteq> []"
    by (cases "classes (props_use p)") (simp_all add: truthy_str_def)
  with True show ?thesis
    by (simp add: js_get_def js_or_val_def truthy_val_def val_key_def prop_key_def)
next
  case False
  with assms(2) have "\<not> truthy_val (js_get classes (props_use p))"
    by simp
  with False show ?thesis
    by (simp add: js_or_val_def val_key_js_str)
qed

lemma variant_key_in:
  "prop_key (classes (if u \<in> set variant_names then u else ''default''))
     \<in> set (variant_classes classes)"
  by (simp add: variant_classes_def variant_names_def)

lemma size_key_other:
  "val_key (SIZE_CLASSES e classes sz) \<in>
     set (''undefined'' # other_classes classes css @ inherited_keys)"
  using size_key_cases [of e classes sz]
  by (auto simp: other_classes_def)

lemma root_entries_keys:
  "fst ` set (root_class_entries e classes css p fbt) \<subseteq>
     insert (val_key (js_or_val (js_get classes (props_use p)) (js_str (classes ''default''))))
       (set (''undefined'' # other_classes classes css @ inherited_keys))"
  using size_key_other [of e classes "props_size p" css]
  by (simp add: root_class_entries_def other_classes_def)

lemma link_entries_keys:
  "fst ` set (link_class_entries e classes p fbt) \<subseteq>
     insert (prop_key (classes ''link''))
       (set (''undefined'' # other_classes classes css @ inherited_keys))"
  using size_key_other [of e classes "props_size p" css]
  by (simp add: link_class_entries_def other_classes_def)

lemma not_other_neq:
  assumes "k \<notin> set (''undefined'' # other_classes classes css @ inherited_keys)"
  shows "k \<noteq> prop_key (classes ''active'')" "k \<noteq> prop_key (classes ''checked'')"
    "k \<noteq> prop_key (classes ''disabled'')" "k \<noteq> prop_key (classes ''narrow'')"
    "k \<noteq> prop_key (classes ''noPadding'')" "k \<noteq> prop_key (classes ''noRightPadding'')"
    "k \<noteq> prop_key (classes ''buttonWithIcon'')" "k \<noteq> prop_key (classes ''focus'')"
    "k \<noteq> prop_key (css ''borderless'')" "k \<noteq> val_key (SIZE_CLASSES e classes sz)"
  using assms size_key_other [of e classes sz css]
  by (auto simp: other_classes_def)

lemma variant_in_root:
  assumes "k \<notin> set (''undefined'' # other_classes classes css @ inherited_keys)"
    and "k = val_key (js_or_val (js_get classes (props_use p)) (js_str (classes ''default'')))"
  shows "k \<in> set (classNames (object_literal (root_class_entries e classes css p fbt)))"
  using not_other_neq [OF assms(1)] assms(2)
  by (simp add: classNames_literal_mem root_class_entries_def)

lemma variant_in_link:
  assumes "prop_key (classes ''link'') \<notin>
      set (''undefined'' # other_classes classes css @ inherited_keys)"
  shows "prop_key (classes ''link'') \<in>
     set (classNames (object_literal (link_class_entries e classes p fbt)))"
  using not_other_neq [OF assms]
  by (simp add: classNames_literal_mem link_class_entries_def)

text \<open>
  Claim C8, as stated, fails: the variant class is looked up in the style table by the
  value of use itself, so a value that is not a variant but names another token of the
  table, or a property that the table inherits, selects what the lookup finds. With
  use = 'active' and the active flag unset, the entry for the active class that follows
  in the object literal then switches the class off; with use = 'constructor' the key is
  the string of the inherited function. In both cases the root class list has no
  variant class at all.
\<close>

theorem variant_class_counterexample:
  "wf_styles example_classes example_classes \<and>
   props_use (default_props\<lparr>use_prop := Some ''active''\<rparr>) \<notin> set variant_names \<and>
   \<not> isl (render example_env example_classes
       (default_props\<lparr>use_prop := Some ''active''\<rparr>) False) \<and>
   root_className (out_rootProps (projr (render example_env example_classes
       (default_props\<lparr>use_prop := Some ''active''\<rparr>) False))) =
     [''Button-root'', ''Button-sizeSmall''] \<and>
   variant_classes example_classes =
     [''Button-default'', ''Button-primary'', ''Button-success'', ''Button-danger'',
      ''Button-pay'', ''Button-link''] \<and>
   filter (\<lambda>k. k \<in> set (variant_classes example_classes))
     (root_className (out_rootProps (projr (render example_env example_classes
       (default_props\<lparr>use_prop := Some ''active''\<rparr>) False)))) = [] \<and>
   props_use (default_props\<lparr>use_prop := Some ''constructor''\<rparr>) \<notin> set variant_names \<and>
   example_classes ''constructor'' = None \<and>
   \<not> isl (render example_env example_classes
       (default_props\<lparr>use_prop := Some ''constructor''\<rparr>) False) \<and>
   root_className (out_rootProps (projr (render example_env example_classes
       (default_props\<lparr>use_prop := Some ''constructor''\<rparr>) False))) =
     [''Button-root'', ''function Object() { [native code] }'', ''Button-sizeSmall''] \<and>
   filter (\<lambda>k. k \<in> set (variant_classes example_classes))
     (root_className (out_rootProps (projr (render example_env example_classes
       (default_props\<lparr>use_prop := Some ''constructor''\<rparr>) False)))) = []"
proof -
  let ?p = "default_props\<lparr>use_prop := Some ''active''\<rparr>"
  let ?q = "default_props\<lparr>use_prop := Some ''constructor''\<rparr>"
  have u: "props_use ?p \<noteq> ''link''" "props_use ?p \<notin> set variant_names"
    by (simp_all add: props_use_def variant_names_def)
  have w: "props_use ?q \<noteq> ''link''" "props_use ?q \<notin> set variant_names"
    "example_classes ''constructor'' = None"
    by (simp_all add: props_use_def variant_names_def example_classes_def)
  from render_root [OF example_css, of example_classes ?q False] obtain out' where
    r': "render example_env example_classes ?q False = Inr out'" and
    c': "root_className (out_rootProps out') =
       classNames (object_literal
         (root_class_entries example_env example_classes example_classes ?q False))"
    using w(1) by auto
  have n': "root_className (out_rootProps out') =
      [''Button-root'', ''function Object() { [native code] }'', ''Button-sizeSmall'']"
    unfolding c' by (rule example_root_classes(5))
  from render_root [OF example_css, of example_classes ?p False] obtain out where
    r: "render example_env example_classes ?p False = Inr out" and
    c: "root_className (out_rootProps out) =
       classNames (object_literal
         (root_class_entries example_env example_classes example_classes ?p False))"
    using u(1) by auto
  have v: "variant_classes example_classes =
     [''Button-default'', ''Button-primary'', ''Button-success'', ''Button-danger'',
      ''Button-pay'', ''Button-link'']"
    by (simp add: variant_classes_def variant_names_def example_classes_def prop_key_def)
  have n: "root_className (out_rootProps out) = [''Button-root'', ''Button-sizeSmall'']"
    unfolding c by (rule example_root_classes(2))
  from example_wf u(2) w(2,3) v n n' show ?thesis
    unfolding r r' by simp
qed

text \<open>
  Claim C8, amended. With the style sheet loaded and a well-formed style table (the
  class names of the tokens are defined, not empty, distinct, and none of the keys of
  inherited properties), rendering returns a tree for every value of use. When use is a
  recognized variant, or a value that the lookup classes[use] does not find (it names
  neither an entry of the style table nor a property that the table inherits, such as
  'constructor' or 'toString'), the root class list contains exactly one variant class:
  the class mapped from use when use is a recognized variant, and the default variant's
  class otherwise (also when use is absent).
\<close>

theorem variant_class:
  assumes "cssStyles e = Some css" and "wf_styles classes css"
  shows "(\<exists>out. render e classes p fbt = Inr out) \<and>
     (props_use p \<in> set variant_names \<or> \<not> truthy_val (js_get classes (props_use p)) \<longrightarrow>
        (\<exists>out. render e classes p fbt = Inr out \<and>
           filter (\<lambda>k. k \<in> set (variant_classes classes)) (root_className (out_rootProps out)) =
             [prop_key (classes
                (if props_use p \<in> set variant_names then props_use p else ''default''))]))"
proof -
  from render_root [OF assms(1), of classes p fbt] obtain out where
    r: "render e classes p fbt = Inr out" and
    c: "root_className (out_rootProps out) =
       classNames (object_literal
         (if props_use p = ''link'' then link_class_entries e classes p fbt
          else root_class_entries e classes css p fbt))"
    by blast
  let ?kv = "prop_key (classes (if props_use p \<in> set variant_names then props_use p else ''default''))"
  let ?cn = "root_className (out_rootProps out)"
  have "filter (\<lambda>k. k \<in> set (variant_classes classes)) ?cn = [?kv]"
    if u: "props_use p \<in> set variant_names \<or> \<not> truthy_val (js_get classes (props_use p))"
  proof (rule filter_single)
    show "distinct ?cn"
      unfolding c by (rule classNames_literal_distinct)
    show v: "?kv \<in> set (variant_classes classes)"
      by (rule variant_key_in)
    have o: "?kv \<notin> set (''undefined'' # other_classes classes css @ inherited_keys)"
      using assms(2) v by (rule wf_variant_not_other)
    have kv: "val_key (js_or_val (js_get classes (props_use p)) (js_str (classes ''default''))) = ?kv"
      using assms(2) u by (rule variant_key)
    show "?kv \<in> set ?cn"
    proof (cases "props_use p = ''link''")
      case True
      then have l: "?kv = prop_key (classes ''link'')"
        by (simp add: variant_names_def)
      from o have "prop_key (classes ''link'') \<notin> set (''undefined'' # other_classes classes css @ inherited_keys)"
        unfolding l .
      then have "prop_key (classes ''link'') \<in>
          set (classNames (object_literal (link_class_entries e classes p fbt)))"
        by (rule variant_in_link)
      with True show ?thesis
        unfolding c l by simp
    next
      case False
      from o kv [symmetric] have "?kv \<in>
          set (classNames (object_literal (root_class_entries e classes css p fbt)))"
        by (rule variant_in_root)
      with False show ?thesis
        unfolding c by simp
    qed
    show "\<forall>y \<in> set ?cn. y \<in> set (variant_classes classes) \<longrightarrow> y = ?kv"
    proof (intro ballI impI)
      fix y assume y: "y \<in> set ?cn" and yv: "y \<in> set (variant_classes classes)"
      have yo: "y \<notin> set (''undefined'' # other_classes classes css @ inherited_keys)"
        using assms(2) yv by (rule wf_variant_not_other)
      show "y = ?kv"
      proof (cases "props_use p = ''link''")
        case True
        then have l: "?kv = prop_key (classes ''link'')"
          by (simp add: variant_names_def)
        from y True have "y \<in> set (classNames (object_literal (link_class_entries e classes p fbt)))"
          unfolding c by simp
        then have "y \<in> fst ` set (link_class_entries e classes p fbt)"
          using classNames_literal_subset by blast
        then have "y \<in> insert (prop_key (classes ''link''))
            (set (''undefined'' # other_classes classes css @ inherited_keys))"
          using link_entries_keys by blast
        with yo have "y = prop_key (classes ''link'')"
          by blast
        then show ?thesis
          unfolding l .
      next
        case False
        with y have "y \<in> set (classNames (object_literal (root_class_entries e classes css p fbt)))"
          unfolding c by simp
        then have "y \<in> fst ` set (root_class_entries e classes css p fbt)"
          using classNames_literal_subset by blast
        then have "y \<in> insert (val_key (js_or_val (js_get classes (props_use p)) (js_str (classes ''default''))))
            (set (''undefined'' # other_classes classes css @ inherited_keys))"
          using root_entries_keys by blast
        with yo have "y = val_key (js_or_val (js_get classes (props_use p)) (js_str (classes ''default'')))"
          by blast
        then show ?thesis
          unfolding kv .
      qed
    qed
  qed
  with r show ?thesis
    by simp
qed

theorem variant_class_witness:
  "cssStyles example_env = Some example_classes \<and>
   wf_styles example_classes example_classes \<and>
   props_use (default_props\<lparr>use_prop := Some ''primary''\<rparr>) \<in> set variant_names \<and>
   \<not> isl (render example_env example_classes
       (default_props\<lparr>use_prop := Some ''primary''\<rparr>) False) \<and>
   filter (\<lambda>k. k \<in> set (variant_classes example_classes))
     (root_className (out_rootProps (projr (render example_env example_classes
       (default_props\<lparr>use_prop := Some ''primary''\<rparr>) False)))) = [''Button-primary''] \<and>
   \<not> truthy_val (js_get example_classes (props_use (default_props\<lparr>use_prop := Some ''bogus''\<rparr>))) \<and>
   filter (\<lambda>k. k \<in> set (variant_classes example_classes))
     (root_className (out_rootProps (projr (render example_env example_classes
       (default_props\<lparr>use_prop := Some ''bogus''\<rparr>) False)))) = [''Button-default''] \<and>
   filter (\<lambda>k. k \<in> set (variant_classes example_classes))
     (root_className (out_rootProps (projr (render example_env example_classes
       default_props False)))) = [''Button-default'']"
proof -
  let ?p = "default_props\<lparr>use_prop := Some ''primary''\<rparr>"
  let ?q = "default_props\<lparr>use_prop := Some ''bogus''\<rparr>"
  have u: "props_use ?p \<in> set variant_names" "props_use ?p = ''primary''"
    by (simp_all add: props_use_def variant_names_def)
  have w: "\<not> truthy_val (js_get example_classes (props_use ?q))"
    "props_use ?q \<notin> set variant_names"
    by (simp_all add: props_use_def variant_names_def example_classes_def js_get_def
        Object_prototype_def inherited_names_def truthy_val_def)
  have d: "props_use default_props \<in> set variant_names" "props_use default_props = ''default''"
    by (simp_all add: props_use_def variant_names_def default_props_def)
  have k: "prop_key (example_classes ''primary'') = ''Button-primary''"
    "prop_key (example_classes ''default'') = ''Button-default''"
    by (simp_all add: example_classes_def prop_key_def)
  from variant_class [OF example_css example_wf, of ?p False]
    variant_class [OF example_css example_wf, of ?q False]
    variant_class [OF example_css example_wf, of default_props False]
  show ?thesis
    using example_css example_wf u w d k by auto
qed

section \<open>The link override\<close>

text \<open>
  Claim C10. With the style sheet loaded and use = 'link', the tree that render returns
  and the composition before the override are equal once the root class set, the
  textAlign style, the wrapper class and the loading, arrow and error-or-warning
  children are blanked out. The override sets exactly these: the class list of the link
  entries, the plain wrapper class, no text alignment and no loading, arrow or marker
  child. The disabled attribute stays disabled || loading, so a loading link is a
  disabled control although it has neither a loading indicator nor, with a well-formed
  style table and disabled unset, the disabled class. Type, tabIndex, the width and
  border-radius styles and all event handlers are those of the composition.
\<close>

theorem link_override_frame:
  assumes "cssStyles e = Some css" and "props_use p = ''link''"
  shows "\<exists>base out. render_base e classes p fbt = Inr base \<and> render e classes p fbt = Inr out \<and>
     outside_link_override out = outside_link_override base \<and>
     root_className (out_rootProps out) =
       classNames (object_literal (link_class_entries e classes p fbt)) \<and>
     out_wrapProps out = \<lparr>wrap_className = classes ''wrap'', wrap_style_width = None\<rparr> \<and>
     style_textAlign (root_style (out_rootProps out)) = None \<and>
     out_loading out = None \<and> out_arrow out = None \<and> out_error out = None \<and>
     root_disabled (out_rootProps out) = js_or (disabled p) (loading p) \<and>
     (truthy (loading p) \<longrightarrow> truthy (root_disabled (out_rootProps out))) \<and>
     (wf_styles classes css \<and> \<not> truthy (disabled p) \<longrightarrow>
        prop_key (classes ''disabled'') \<notin> set (root_className (out_rootProps out))) \<and>
     root_type (out_rootProps out) = props_type p \<and>
     root_tabIndex (out_rootProps out) = (if truthy (disableFocus p) then - 1 else 0) \<and>
     style_width (root_style (out_rootProps out)) = width p \<and>
     style_borderRadius (root_style (out_rootProps out)) =
       borderRadius (env_Corners e) (corners p) \<and>
     root_onClick (out_rootProps out) = onClick p \<and>
     root_onFocus (out_rootProps out) = HandleFocus \<and>
     root_onBlur (out_rootProps out) = HandleBlur \<and>
     root_onKeyDown (out_rootProps out) = onKeyDown p \<and>
     root_onMouseEnter (out_rootProps out) = onMouseEnter p \<and>
     root_onMouseLeave (out_rootProps out) = onMouseLeave p \<and>
     root_onMouseOver (out_rootProps out) = onMouseOver p"
  using assms
  by (simp add: render_def render_base_def link_override_def outside_link_override_def
      js_or_def disabled_in_link)

theorem link_override_frame_witness:
  "cssStyles example_env = Some example_classes \<and>
   props_use (default_props\<lparr>use_prop := Some ''link'', loading := Some True\<rparr>) = ''link'' \<and>
   wf_styles example_classes example_classes \<and>
   truthy (loading (default_props\<lparr>use_prop := Some ''link'', loading := Some True\<rparr>)) \<and>
   \<not> truthy (disabled (default_props\<lparr>use_prop := Some ''link'', loading := Some True\<rparr>)) \<and>
   \<not> isl (render example_env example_classes
       (default_props\<lparr>use_prop := Some ''link'', loading := Some True\<rparr>) False) \<and>
   outside_link_override (projr (render example_env example_classes
       (default_props\<lparr>use_prop := Some ''link'', loading := Some True\<rparr>) False)) =
     outside_link_override (projr (render_base example_env example_classes
       (default_props\<lparr>use_prop := Some ''link'', loading := Some True\<rparr>) False)) \<and>
   truthy (root_disabled (out_rootProps (projr (render example_env example_classes
       (default_props\<lparr>use_prop := Some ''link'', loading := Some True\<rparr>) False)))) \<and>
   out_loading (projr (render example_env example_classes
       (default_props\<lparr>use_prop := Some ''link'', loading := Some True\<rparr>) False)) = None \<and>
   ''Button-disabled'' \<notin> set (root_className (out_rootProps (projr
       (render example_env example_classes
          (default_props\<lparr>use_prop := Some ''link'', loading := Some True\<rparr>) False)))) \<and>
   root_type (out_rootProps (projr (render example_env example_classes
       (default_props\<lparr>use_prop := Some ''link'', loading := Some True\<rparr>) False))) = ''button'' \<and>
   root_tabIndex (out_rootProps (projr (render example_env example_classes
       (default_props\<lparr>use_prop := Some ''link'', loading := Some True\<rparr>) False))) = 0"
proof -
  let ?p = "default_props\<lparr>use_prop := Some ''link'', loading := Some True\<rparr>"
  have u: "props_use ?p = ''link''"
    by (simp add: props_use_def)
  have a: "truthy (loading ?p)" "\<not> truthy (disabled ?p)" "\<not> truthy (disableFocus ?p)"
    "props_type ?p = ''button''"
    by (simp_all add: truthy_def default_props_def props_type_def)
  have k: "prop_key (example_classes ''disabled'') = ''Button-disabled''"
    by (simp add: example_classes_def prop_key_def)
  from link_override_frame [OF example_css u, of example_classes False]
  show ?thesis
    using example_css example_wf u a k by auto
qed

end
